theory Spec2Isabelle
  imports Complex_Main "HOL-Library.AList" "HOL-Library.Multiset" "HOL-Library.Sublist"
begin

section \<open>Receipt proration: \<open>frontend/src/lib/calculations.ts\<close>\<close>

text \<open>
  The TypeScript type \<open>number\<close> is modelled by the exact rationals: \<open>*\<close>, \<open>+\<close> and \<open>/\<close>
  are the field operations, and no rounding happens unless the source calls a rounding
  function. The rounding of IEEE doubles, \<open>NaN\<close> and the infinities are outside the model;
  the two divisions of the source are guarded by \<open>> 0\<close> tests, so no division by zero is
  ever evaluated.
\<close>

type_synonym number = rat

subsection \<open>Data model (the exported interfaces)\<close>

record 'n Assignment =
  participant_id :: string
  participant_name :: string
  shares :: 'n

record 'n LineItem =
  unit_price_cents :: 'n
  quantity :: 'n
  assignments :: "'n Assignment list"

record 'n TaxLine =
  amount_cents :: 'n

record 'n ReceiptData =
  line_items :: "'n LineItem list"
  tax_lines :: "'n TaxLine list"
  tip_cents :: "'n option"

text \<open>
  An interface is structural: the argument of the function may carry more properties than
  the three of \<open>ReceiptData\<close>. The functions below take a receipt of the extensible
  record type \<open>('n, 'a) ReceiptData_scheme\<close>, of which \<open>ReceiptData\<close> is the instance
  with nothing more.
\<close>

record 'n PerPersonBreakdown =
  participantId :: string
  participantName :: string
  itemsTotal :: 'n
  taxShare :: 'n
  tipShare :: 'n
  total :: 'n

subsection \<open>The local state of one invocation\<close>

text \<open>
  \<open>breakdown\<close> is a JavaScript \<open>Map\<close> that is iterated at the end, so it is an
  association list in insertion order: a new key is appended, an existing key keeps its
  place. \<open>participantItemTotals\<close> is only read by key, so it is a partial function.
\<close>

record 'n calc_state =
  breakdown :: "(string \<times> 'n PerPersonBreakdown) list"
  participantItemTotals :: "string \<rightharpoonup> 'n"
  totalAssignedAmount :: 'n

definition initial_state :: "number calc_state" where
  "initial_state =
     \<lparr>breakdown = [], participantItemTotals = Map.empty, totalAssignedAmount = 0\<rparr>"

text \<open>\<open>x || 0\<close> on a value that is a number, \<open>undefined\<close> or \<open>null\<close>.\<close>

definition or_zero :: "number option \<Rightarrow> number" where
  "or_zero x = (case x of None \<Rightarrow> 0 | Some v \<Rightarrow> (if v = 0 then 0 else v))"

text \<open>\<open>item.assignments.reduce((sum, a) => sum + a.shares, 0)\<close>\<close>

definition totalShares :: "number LineItem \<Rightarrow> number" where
  "totalShares item = foldl (\<lambda>sum a. sum + shares a) 0 (assignments item)"

definition itemTotal :: "number LineItem \<Rightarrow> number" where
  "itemTotal item = unit_price_cents item * quantity item"

text \<open>The body of the inner \<open>forEach\<close>, for one assignment of an item.\<close>

definition processAssignment ::
  "number \<Rightarrow> number \<Rightarrow> number calc_state \<Rightarrow> number Assignment \<Rightarrow> number calc_state" where
  "processAssignment itemTotal_v totalShares_v st assignment =
     (let participantShare = (itemTotal_v * shares assignment) / totalShares_v;
          current = or_zero (participantItemTotals st (participant_id assignment));
          pit = (participantItemTotals st)
                  (participant_id assignment \<mapsto> current + participantShare);
          taa = totalAssignedAmount st + participantShare;
          bd = (if map_of (breakdown st) (participant_id assignment) = None
                then breakdown st @
                       [(participant_id assignment,
                         \<lparr>participantId = participant_id assignment,
                          participantName = participant_name assignment,
                          itemsTotal = 0, taxShare = 0, tipShare = 0, total = 0\<rparr>)]
                else breakdown st);
          bd' = AList.map_entry (participant_id assignment)
                  (\<lambda>entry. entry\<lparr>itemsTotal := itemsTotal entry + participantShare\<rparr>) bd
      in \<lparr>breakdown = bd', participantItemTotals = pit, totalAssignedAmount = taa\<rparr>)"

text \<open>The body of the outer \<open>forEach\<close>, for one line item.\<close>

definition processItem :: "number calc_state \<Rightarrow> number LineItem \<Rightarrow> number calc_state" where
  "processItem st item =
     (if totalShares item > 0
      then foldl (processAssignment (itemTotal item) (totalShares item)) st (assignments item)
      else st)"

definition processItems :: "(number, 'a) ReceiptData_scheme \<Rightarrow> number calc_state" where
  "processItems receipt = foldl processItem initial_state (line_items receipt)"

text \<open>\<open>receipt.tax_lines.reduce((sum, tax) => sum + tax.amount_cents, 0)\<close>\<close>

definition taxTotal :: "(number, 'a) ReceiptData_scheme \<Rightarrow> number" where
  "taxTotal receipt = foldl (\<lambda>sum tax. sum + amount_cents tax) 0 (tax_lines receipt)"

definition tipTotal :: "(number, 'a) ReceiptData_scheme \<Rightarrow> number" where
  "tipTotal receipt = or_zero (tip_cents receipt)"

text \<open>The body of \<open>breakdown.forEach\<close>: tax and tip of one entry, then its total.\<close>

definition prorateEntry ::
  "(number, 'a) ReceiptData_scheme \<Rightarrow> number calc_state \<Rightarrow> string \<times> number PerPersonBreakdown
     \<Rightarrow> string \<times> number PerPersonBreakdown"
  where
  "prorateEntry receipt st kv =
     (let participantId_v = fst kv;
          entry = snd kv;
          itemsShare = or_zero (participantItemTotals st participantId_v);
          entry1 = (if totalAssignedAmount st > 0
                    then entry\<lparr>taxShare := (taxTotal receipt * itemsShare) / totalAssignedAmount st,
                               tipShare := (tipTotal receipt * itemsShare) / totalAssignedAmount st\<rparr>
                    else entry)
      in (participantId_v,
          entry1\<lparr>total := itemsTotal entry1 + taxShare entry1 + tipShare entry1\<rparr>))"

text \<open>
  \<open>Array.from(breakdown.values())\<close> after the proration loop: the entries in the
  insertion order of the \<open>Map\<close>.
\<close>

definition breakdownValues :: "(number, 'a) ReceiptData_scheme \<Rightarrow> number PerPersonBreakdown list" where
  "breakdownValues receipt =
     map snd (map (prorateEntry receipt (processItems receipt))
                  (breakdown (processItems receipt)))"

text \<open>
  \<open>.sort((a, b) => b.total - a.total)\<close>: \<open>Array.prototype.sort\<close> is stable, and the
  comparator puts the larger total first. \<open>sort_key\<close> is the stable insertion sort of
  the library, here on the negated total.
\<close>

definition sortByTotalDesc :: "number PerPersonBreakdown list \<Rightarrow> number PerPersonBreakdown list" where
  "sortByTotalDesc entries = sort_key (\<lambda>e. - total e) entries"

definition calculatePerPersonBreakdown ::
  "(number, 'a) ReceiptData_scheme \<Rightarrow> number PerPersonBreakdown list" where
  "calculatePerPersonBreakdown receipt = sortByTotalDesc (breakdownValues receipt)"

subsection \<open>Vocabulary of the statements\<close>

text \<open>
  A \<^emph>\<open>credit\<close> is one execution of the inner loop body: the assignment it runs on and the
  amount \<open>participantShare\<close> it adds. \<open>applyCredit\<close> is \<open>processAssignment\<close> with that
  amount given: one share out of one of an item whose total is the amount.
\<close>

definition applyCredit :: "number calc_state \<Rightarrow> number Assignment \<times> number \<Rightarrow> number calc_state" where
  "applyCredit st c = processAssignment (snd c) 1 st ((fst c)\<lparr>shares := 1\<rparr>)"

text \<open>The credits of one line item, in the order of the inner loop; none when the item is skipped.\<close>

definition itemCredits :: "number LineItem \<Rightarrow> (number Assignment \<times> number) list" where
  "itemCredits item =
     (if totalShares item > 0
      then map (\<lambda>a. (a, (itemTotal item * shares a) / totalShares item)) (assignments item)
      else [])"

text \<open>The credits of all line items, in the order of the two nested loops.\<close>

definition receiptCredits :: "number LineItem list \<Rightarrow> (number Assignment \<times> number) list" where
  "receiptCredits items = concat (map itemCredits items)"

text \<open>The elements of a list in the order of their first occurrence.\<close>

definition firstOcc :: "'a list \<Rightarrow> 'a list" where
  "firstOcc xs = rev (remdups (rev xs))"

definition creditIds :: "(number Assignment \<times> number) list \<Rightarrow> string list" where
  "creditIds cs = map (\<lambda>c. participant_id (fst c)) cs"

text \<open>The sum of the amounts credited to one participant id.\<close>

definition creditedTo :: "string \<Rightarrow> (number Assignment \<times> number) list \<Rightarrow> number" where
  "creditedTo pid cs = sum_list (map snd (filter (\<lambda>c. participant_id (fst c) = pid) cs))"

text \<open>What holds of the state after the credits \<open>cs\<close> have been applied to the initial state.\<close>

definition credit_inv :: "number calc_state \<Rightarrow> (number Assignment \<times> number) list \<Rightarrow> bool" where
  "credit_inv st cs \<longleftrightarrow>
     map fst (breakdown st) = firstOcc (creditIds cs) \<and>
     (\<forall>pid e. (pid, e) \<in> set (breakdown st) \<longrightarrow>
        participantId e = pid \<and> itemsTotal e = creditedTo pid cs \<and>
        taxShare e = 0 \<and> tipShare e = 0 \<and> total e = 0) \<and>
     (\<forall>pid. participantItemTotals st pid =
        (if pid \<in> set (creditIds cs) then Some (creditedTo pid cs) else None)) \<and>
     totalAssignedAmount st = sum_list (map snd cs)"


subsection \<open>Receipts used as concrete inputs\<close>




text \<open>The test \<open>handles unequal shares (2:1 split)\<close> (scenario A of the specification).\<close>

definition receipt_scenario_A :: "number ReceiptData" where
  "receipt_scenario_A =
     \<lparr>line_items =
        [\<lparr>unit_price_cents = 3000, quantity = 1, assignments =
            [\<lparr>participant_id = ''p1'', participant_name = ''Alice'', shares = 2\<rparr>,
             \<lparr>participant_id = ''p2'', participant_name = ''Bob'', shares = 1\<rparr>]\<rparr>],
      tax_lines = [], tip_cents = None\<rparr>"

text \<open>One assigned item and a tax line; and an item whose only assignment has zero shares.\<close>

definition receipt_unassigned_mix :: "number ReceiptData" where
  "receipt_unassigned_mix =
     \<lparr>line_items =
        [\<lparr>unit_price_cents = 1000, quantity = 1, assignments =
            [\<lparr>participant_id = ''p1'', participant_name = ''Alice'', shares = 1\<rparr>]\<rparr>],
      tax_lines = [\<lparr>amount_cents = 600\<rparr>], tip_cents = None\<rparr>"

definition item_zero_shares :: "number LineItem" where
  "item_zero_shares =
     \<lparr>unit_price_cents = 5000, quantity = 1, assignments =
        [\<lparr>participant_id = ''p2'', participant_name = ''Bob'', shares = 0\<rparr>]\<rparr>"

text \<open>One item of 1000 cents on which Alice has zero shares and Bob has one.\<close>

definition receipt_zero_share :: "number ReceiptData" where
  "receipt_zero_share =
     \<lparr>line_items =
        [\<lparr>unit_price_cents = 1000, quantity = 1, assignments =
            [\<lparr>participant_id = ''p1'', participant_name = ''Alice'', shares = 0\<rparr>,
             \<lparr>participant_id = ''p2'', participant_name = ''Bob'', shares = 1\<rparr>]\<rparr>],
      tax_lines = [\<lparr>amount_cents = 100\<rparr>], tip_cents = Some 50\<rparr>"

text \<open>One item of 1000 cents on which Alice has three shares and Bob has minus one.\<close>

definition assignment_negative :: "number Assignment" where
  "assignment_negative = \<lparr>participant_id = ''p2'', participant_name = ''Bob'', shares = - 1\<rparr>"

definition item_negative_share :: "number LineItem" where
  "item_negative_share =
     \<lparr>unit_price_cents = 1000, quantity = 1, assignments =
        [\<lparr>participant_id = ''p1'', participant_name = ''Alice'', shares = 3\<rparr>,
         assignment_negative]\<rparr>"

definition receipt_negative_share :: "number ReceiptData" where
  "receipt_negative_share =
     \<lparr>line_items = [item_negative_share],
      tax_lines = [\<lparr>amount_cents = 100\<rparr>], tip_cents = Some 50\<rparr>"


text \<open>Three single-payer items; Carol (met first) and Alice (met last) have equal totals.\<close>

definition receipt_tie :: "number ReceiptData" where
  "receipt_tie =
     \<lparr>line_items =
        [\<lparr>unit_price_cents = 1000, quantity = 1, assignments =
            [\<lparr>participant_id = ''p3'', participant_name = ''Carol'', shares = 1\<rparr>]\<rparr>,
         \<lparr>unit_price_cents = 3000, quantity = 1, assignments =
            [\<lparr>participant_id = ''p2'', participant_name = ''Bob'', shares = 1\<rparr>]\<rparr>,
         \<lparr>unit_price_cents = 1000, quantity = 1, assignments =
            [\<lparr>participant_id = ''p1'', participant_name = ''Alice'', shares = 1\<rparr>]\<rparr>],
      tax_lines = [], tip_cents = None\<rparr>"

section \<open>The state after the item loop\<close>

lemmas calc_eval_defs =
  calculatePerPersonBreakdown_def sortByTotalDesc_def breakdownValues_def prorateEntry_def
  processItems_def processItem_def processAssignment_def totalShares_def itemTotal_def
  or_zero_def taxTotal_def tipTotal_def initial_state_def Let_def

lemma or_zero_simps [simp]: "or_zero None = 0" "or_zero (Some v) = v"
  by (simp_all add: or_zero_def)

lemma processAssignment_applyCredit:
  "processAssignment it ts st a = applyCredit st (a, (it * shares a) / ts)"
  by (simp add: processAssignment_def applyCredit_def Let_def)

lemma processItem_credits: "processItem st item = foldl applyCredit st (itemCredits item)"
proof -
  have "processAssignment (itemTotal item) (totalShares item) =
          (\<lambda>s a. applyCredit s (a, (itemTotal item * shares a) / totalShares item))"
    by (intro ext) (rule processAssignment_applyCredit)
  then show ?thesis
    by (simp add: processItem_def itemCredits_def foldl_map)
qed

lemma foldl_processItem_credits:
  "foldl processItem st items = foldl applyCredit st (receiptCredits items)"
  by (induction items arbitrary: st) (simp_all add: receiptCredits_def processItem_credits)

lemma firstOcc_Nil [simp]: "firstOcc [] = []"
  by (simp add: firstOcc_def)

lemma firstOcc_snoc:
  "firstOcc (xs @ [x]) = (if x \<in> set xs then firstOcc xs else firstOcc xs @ [x])"
  by (simp add: firstOcc_def)

lemma set_firstOcc [simp]: "set (firstOcc xs) = set xs"
  by (simp add: firstOcc_def)

lemma distinct_firstOcc [simp]: "distinct (firstOcc xs)"
  by (simp add: firstOcc_def)

lemma map_fst_map_entry [simp]: "map fst (AList.map_entry k f xs) = map fst xs"
  by (induction xs) auto

lemma set_map_entry_cases:
  "distinct (map fst xs) \<Longrightarrow> (k', v') \<in> set (AList.map_entry k f xs) \<Longrightarrow>
     (k' \<noteq> k \<and> (k', v') \<in> set xs) \<or> (k' = k \<and> (\<exists>v. (k, v) \<in> set xs \<and> v' = f v))"
  by (induction xs) (auto split: if_splits simp: rev_image_eqI)

lemma map_entry_snoc_absent:
  "k \<notin> fst ` set xs \<Longrightarrow> AList.map_entry k f (xs @ [(k, v)]) = xs @ [(k, f v)]"
  by (induction xs) auto


lemma credit_inv_init: "credit_inv initial_state []"
  by (simp add: credit_inv_def initial_state_def creditIds_def)

lemma credit_inv_step:
  assumes "credit_inv st cs"
  shows "credit_inv (applyCredit st (a, d)) (cs @ [(a, d)])"
proof -
  let ?k = "participant_id a"
  let ?c = "(a, d)"
  from assms have keys: "map fst (breakdown st) = firstOcc (creditIds cs)"
    and ent: "\<And>pid e. (pid, e) \<in> set (breakdown st) \<Longrightarrow>
        participantId e = pid \<and> itemsTotal e = creditedTo pid cs \<and>
        taxShare e = 0 \<and> tipShare e = 0 \<and> total e = 0"
    and pit: "\<And>pid. participantItemTotals st pid =
        (if pid \<in> set (creditIds cs) then Some (creditedTo pid cs) else None)"
    and taa: "totalAssignedAmount st = sum_list (map snd cs)"
    by (simp_all add: credit_inv_def)
  have dom: "fst ` set (breakdown st) = set (creditIds cs)"
    using keys by (metis set_firstOcc set_map)
  have none_iff: "map_of (breakdown st) ?k = None \<longleftrightarrow> ?k \<notin> set (creditIds cs)"
    using dom by (simp add: map_of_eq_None_iff)
  have dist: "distinct (map fst (breakdown st))"
    using keys by simp
  have absent_zero: "?k \<notin> set (creditIds cs) \<Longrightarrow> creditedTo ?k cs = 0"
  proof -
    assume "?k \<notin> set (creditIds cs)"
    then have "\<forall>c\<in>set cs. \<not> participant_id (fst c) = ?k"
      by (force simp: creditIds_def)
    then have "filter (\<lambda>c. participant_id (fst c) = ?k) cs = []"
      by (rule filter_False)
    then show ?thesis by (simp add: creditedTo_def)
  qed
  show ?thesis
  proof (cases "?k \<in> set (creditIds cs)")
    case True
    have bd: "breakdown (applyCredit st ?c) =
        AList.map_entry ?k (\<lambda>e. e\<lparr>itemsTotal := itemsTotal e + d\<rparr>) (breakdown st)"
      using True none_iff by (auto simp add: applyCredit_def processAssignment_def Let_def)
    show ?thesis
      unfolding credit_inv_def
    proof (intro conjI allI impI; (elim conjE)?)
      show "map fst (breakdown (applyCredit st ?c)) = firstOcc (creditIds (cs @ [?c]))"
        using True keys by (simp add: bd creditIds_def firstOcc_snoc)
    next
      fix pid e assume "(pid, e) \<in> set (breakdown (applyCredit st ?c))"
      from set_map_entry_cases[OF dist this[unfolded bd]] ent
      have *: "participantId e = pid \<and> itemsTotal e = creditedTo pid (cs @ [?c]) \<and>
        taxShare e = 0 \<and> tipShare e = 0 \<and> total e = 0"
        by (auto simp: creditedTo_def)
      show "participantId e = pid" "itemsTotal e = creditedTo pid (cs @ [?c])"
        "taxShare e = 0" "tipShare e = 0" "total e = 0"
        using * by simp_all
    next
      fix pid
      show "participantItemTotals (applyCredit st ?c) pid =
        (if pid \<in> set (creditIds (cs @ [?c])) then Some (creditedTo pid (cs @ [?c])) else None)"
        using True pit by (auto simp: applyCredit_def processAssignment_def Let_def creditIds_def creditedTo_def)
    next
      show "totalAssignedAmount (applyCredit st ?c) = sum_list (map snd (cs @ [?c]))"
        using taa by (simp add: applyCredit_def processAssignment_def Let_def)
    qed
  next
    case False
    have notin: "?k \<notin> fst ` set (breakdown st)" using False dom by simp
    have bd: "breakdown (applyCredit st ?c) = breakdown st @
        [(?k, \<lparr>participantId = ?k, participantName = participant_name a,
               itemsTotal = d, taxShare = 0, tipShare = 0, total = 0\<rparr>)]"
      using False none_iff notin
      by (auto simp add: applyCredit_def processAssignment_def Let_def map_entry_snoc_absent)
    show ?thesis
      unfolding credit_inv_def
    proof (intro conjI allI impI; (elim conjE)?)
      show "map fst (breakdown (applyCredit st ?c)) = firstOcc (creditIds (cs @ [?c]))"
        using False keys by (simp add: bd creditIds_def firstOcc_snoc)
    next
      fix pid e assume "(pid, e) \<in> set (breakdown (applyCredit st ?c))"
      then have *: "participantId e = pid \<and> itemsTotal e = creditedTo pid (cs @ [?c]) \<and>
        taxShare e = 0 \<and> tipShare e = 0 \<and> total e = 0"
        using ent notin absent_zero[OF False] unfolding bd
        by (auto simp: creditedTo_def rev_image_eqI)
      show "participantId e = pid" "itemsTotal e = creditedTo pid (cs @ [?c])"
        "taxShare e = 0" "tipShare e = 0" "total e = 0"
        using * by simp_all
    next
      fix pid
      show "participantItemTotals (applyCredit st ?c) pid =
        (if pid \<in> set (creditIds (cs @ [?c])) then Some (creditedTo pid (cs @ [?c])) else None)"
        using False pit absent_zero[OF False]
        by (auto simp: applyCredit_def processAssignment_def Let_def creditIds_def creditedTo_def)
    next
      show "totalAssignedAmount (applyCredit st ?c) = sum_list (map snd (cs @ [?c]))"
        using taa by (simp add: applyCredit_def processAssignment_def Let_def)
    qed
  qed
qed

lemma credit_inv_foldl: "credit_inv (foldl applyCredit initial_state cs) cs"
proof (induction cs rule: rev_induct)
  case Nil
  show ?case by (simp add: credit_inv_init)
next
  case (snoc c cs)
  then show ?case by (cases c) (simp add: credit_inv_step)
qed

lemma credit_inv_processItems:
  "credit_inv (processItems receipt) (receiptCredits (line_items receipt))"
  by (simp add: processItems_def foldl_processItem_credits credit_inv_foldl)

section \<open>The entries of the output\<close>


lemma credit_inv_keys:
  "credit_inv st cs \<Longrightarrow> map fst (breakdown st) = firstOcc (creditIds cs)"
  by (simp add: credit_inv_def)


lemma credit_inv_dom: "credit_inv st cs \<Longrightarrow> fst ` set (breakdown st) = set (creditIds cs)"
  by (metis credit_inv_keys set_firstOcc set_map)

lemma credit_inv_entry:
  "credit_inv st cs \<Longrightarrow> (pid, e) \<in> set (breakdown st) \<Longrightarrow>
     participantId e = pid \<and> itemsTotal e = creditedTo pid cs \<and>
     taxShare e = 0 \<and> tipShare e = 0 \<and> total e = 0"
  by (simp add: credit_inv_def)

lemma credit_inv_pit:
  "credit_inv st cs \<Longrightarrow> participantItemTotals st pid =
     (if pid \<in> set (creditIds cs) then Some (creditedTo pid cs) else None)"
  by (simp add: credit_inv_def)




lemma foldl_add_sum_list:
  "foldl (\<lambda>s x. s + f x) z xs = (z :: rat) + sum_list (map f xs)"
  by (induction xs arbitrary: z) (simp_all add: add.assoc)

lemma totalShares_sum: "totalShares item = sum_list (map shares (assignments item))"
  by (simp add: totalShares_def foldl_add_sum_list)




lemma breakdownValues_alt:
  "breakdownValues receipt =
     map (\<lambda>kv. snd (prorateEntry receipt (processItems receipt) kv))
         (breakdown (processItems receipt))"
  by (simp add: breakdownValues_def)

lemma prorateEntry_fields:
  fixes receipt :: "(number, 'a) ReceiptData_scheme"
  assumes inv: "credit_inv st cs" and mem: "(pid, e0) \<in> set (breakdown st)"
  defines "e \<equiv> snd (prorateEntry receipt st (pid, e0))"
  shows "participantId e = pid"
    and "participantName e = participantName e0"
    and "itemsTotal e = creditedTo pid cs"
    and "taxShare e = (if totalAssignedAmount st > 0
                       then (taxTotal receipt * itemsTotal e) / totalAssignedAmount st else 0)"
    and "tipShare e = (if totalAssignedAmount st > 0
                       then (tipTotal receipt * itemsTotal e) / totalAssignedAmount st else 0)"
    and "total e = itemsTotal e + taxShare e + tipShare e"
proof -
  have pid: "pid \<in> set (creditIds cs)"
    using credit_inv_dom[OF inv] mem by force
  have pit: "participantItemTotals st pid = Some (creditedTo pid cs)"
    using credit_inv_pit[OF inv, of pid] pid by simp
  note ent = credit_inv_entry[OF inv mem]
  show "participantId e = pid" "participantName e = participantName e0"
    "itemsTotal e = creditedTo pid cs"
    "taxShare e = (if totalAssignedAmount st > 0
                       then (taxTotal receipt * itemsTotal e) / totalAssignedAmount st else 0)"
    "tipShare e = (if totalAssignedAmount st > 0
                       then (tipTotal receipt * itemsTotal e) / totalAssignedAmount st else 0)"
    "total e = itemsTotal e + taxShare e + tipShare e"
    using ent pit by (simp_all add: e_def prorateEntry_def Let_def)
qed

lemma set_calculate:
  "set (calculatePerPersonBreakdown receipt) = set (breakdownValues receipt)"
  by (simp add: calculatePerPersonBreakdown_def sortByTotalDesc_def)

lemma output_entry:
  assumes "e \<in> set (breakdownValues receipt)"
  shows "participantId e \<in> set (creditIds (receiptCredits (line_items receipt)))"
    and "itemsTotal e = creditedTo (participantId e) (receiptCredits (line_items receipt))"
    and "taxShare e = (if totalAssignedAmount (processItems receipt) > 0
           then (taxTotal receipt * itemsTotal e) / totalAssignedAmount (processItems receipt)
           else 0)"
    and "tipShare e = (if totalAssignedAmount (processItems receipt) > 0
           then (tipTotal receipt * itemsTotal e) / totalAssignedAmount (processItems receipt)
           else 0)"
    and "total e = itemsTotal e + taxShare e + tipShare e"
proof -
  let ?st = "processItems receipt"
  let ?cs = "receiptCredits (line_items receipt)"
  note inv = credit_inv_processItems[of receipt]
  from assms obtain pid e0 where mem: "(pid, e0) \<in> set (breakdown ?st)"
    and e: "e = snd (prorateEntry receipt ?st (pid, e0))"
    by (auto simp: breakdownValues_alt)
  note f = prorateEntry_fields[OF inv mem, of receipt, folded e]
  have "pid \<in> set (creditIds ?cs)"
    using credit_inv_dom[OF inv] mem by force
  then show "participantId e \<in> set (creditIds ?cs)" by (simp add: f(1))
  show "itemsTotal e = creditedTo (participantId e) ?cs" by (simp add: f(1) f(3))
  show "taxShare e = (if totalAssignedAmount ?st > 0
           then (taxTotal receipt * itemsTotal e) / totalAssignedAmount ?st else 0)"
    by (rule f(4))
  show "tipShare e = (if totalAssignedAmount ?st > 0
           then (tipTotal receipt * itemsTotal e) / totalAssignedAmount ?st else 0)"
    by (rule f(5))
  show "total e = itemsTotal e + taxShare e + tipShare e" by (rule f(6))
qed

lemma output_ids:
  "map participantId (breakdownValues receipt)
     = firstOcc (creditIds (receiptCredits (line_items receipt)))"
proof -
  let ?st = "processItems receipt"
  note inv = credit_inv_processItems[of receipt]
  have "map participantId (breakdownValues receipt) = map fst (breakdown ?st)"
    unfolding breakdownValues_alt map_map
  proof (rule map_cong[OF refl])
    fix kv assume "kv \<in> set (breakdown ?st)"
    then have "(fst kv, snd kv) \<in> set (breakdown ?st)" by simp
    from prorateEntry_fields(1)[OF inv this, of receipt]
    show "(participantId \<circ> (\<lambda>kv. snd (prorateEntry receipt ?st kv))) kv = fst kv" by simp
  qed
  then show ?thesis by (simp add: credit_inv_keys[OF inv])
qed



subsection \<open>Skipped items, scaled shares, participants of the output\<close>

lemma calculate_cong:
  assumes "processItems r1 = processItems r2" "tax_lines r1 = tax_lines r2"
    "tip_cents r1 = tip_cents r2"
  shows "calculatePerPersonBreakdown r1 = calculatePerPersonBreakdown r2"
proof -
  have "taxTotal r1 = taxTotal r2" "tipTotal r1 = tipTotal r2"
    using assms(2,3) by (simp_all add: taxTotal_def tipTotal_def)
  then have "prorateEntry r1 (processItems r2) = prorateEntry r2 (processItems r2)"
    by (intro ext) (simp add: prorateEntry_def Let_def)
  then show ?thesis
    using assms(1) by (simp add: calculatePerPersonBreakdown_def breakdownValues_def)
qed

lemma processItem_skip: "totalShares item \<le> 0 \<Longrightarrow> processItem st item = st"
  by (simp add: processItem_def)

lemma processItems_skip:
  assumes "totalShares item \<le> 0"
  shows "processItems (receipt\<lparr>line_items := xs @ item # ys\<rparr>)
           = processItems (receipt\<lparr>line_items := xs @ ys\<rparr>)"
  using assms by (simp add: processItems_def processItem_skip)

lemma foldl_processItem_all_skipped:
  "\<forall>item \<in> set items. totalShares item \<le> 0 \<Longrightarrow> foldl processItem st items = st"
  by (induction items arbitrary: st) (simp_all add: processItem_skip)

lemma calculate_all_skipped:
  assumes "\<forall>item \<in> set (line_items receipt). totalShares item \<le> 0"
  shows "calculatePerPersonBreakdown receipt = []"
  using foldl_processItem_all_skipped[OF assms, of initial_state]
  by (simp add: calculatePerPersonBreakdown_def breakdownValues_def sortByTotalDesc_def
      processItems_def initial_state_def)

lemma set_creditIds_receiptCredits:
  "set (creditIds (receiptCredits items)) =
     {participant_id a | item a. item \<in> set items \<and> 0 < totalShares item \<and> a \<in> set (assignments item)}"
proof (intro set_eqI iffI)
  fix pid assume "pid \<in> set (creditIds (receiptCredits items))"
  then show "pid \<in> {participant_id a | item a.
      item \<in> set items \<and> 0 < totalShares item \<and> a \<in> set (assignments item)}"
    by (fastforce simp: creditIds_def receiptCredits_def itemCredits_def split: if_splits)
next
  fix pid assume "pid \<in> {participant_id a | item a.
      item \<in> set items \<and> 0 < totalShares item \<and> a \<in> set (assignments item)}"
  then obtain item a where "item \<in> set items" "0 < totalShares item"
    "a \<in> set (assignments item)" "pid = participant_id a" by blast
  then have "(a, (itemTotal item * shares a) / totalShares item) \<in> set (receiptCredits items)"
    by (force simp: receiptCredits_def itemCredits_def)
  then show "pid \<in> set (creditIds (receiptCredits items))"
    using \<open>pid = participant_id a\<close> by (force simp: creditIds_def)
qed

lemma sum_list_all_zero: "\<forall>x \<in> set xs. x = (0 :: rat) \<Longrightarrow> sum_list xs = 0"
  by (induction xs) simp_all

lemma set_output_ids:
  "participantId ` set (calculatePerPersonBreakdown receipt)
     = set (creditIds (receiptCredits (line_items receipt)))"
proof -
  have "participantId ` set (breakdownValues receipt)
          = set (map participantId (breakdownValues receipt))" by simp
  then show ?thesis by (simp only: set_calculate output_ids set_firstOcc)
qed

lemma creditedTo_zero_shares:
  assumes "\<forall>item\<in>set items. \<forall>a\<in>set (assignments item). participant_id a = pid \<longrightarrow> shares a = 0"
  shows "creditedTo pid (receiptCredits items) = 0"
proof -
  have "\<forall>c \<in> set (filter (\<lambda>c. participant_id (fst c) = pid) (receiptCredits items)). snd c = 0"
    using assms by (auto simp: receiptCredits_def itemCredits_def split: if_splits)
  then have "\<forall>x \<in> set (map snd (filter (\<lambda>c. participant_id (fst c) = pid) (receiptCredits items))). x = 0"
    by auto
  then show ?thesis
    unfolding creditedTo_def by (rule sum_list_all_zero)
qed

lemma totalShares_filter_nonzero:
  "totalShares (item\<lparr>assignments := filter (\<lambda>a. shares a \<noteq> 0) (assignments item)\<rparr>)
     = totalShares item"
proof -
  have "sum_list (map shares (filter (\<lambda>a. shares a \<noteq> 0) as)) = sum_list (map shares as)"
    for as :: "number Assignment list"
    by (induction as) simp_all
  then show ?thesis by (simp add: totalShares_sum)
qed






section \<open>The claims\<close>

subsection \<open>C1: amounts per assignment\<close>





subsection \<open>C2: proration of tax and tip\<close>



subsection \<open>C3: line items without shares\<close>

text \<open>
  C3: a line item whose shares sum to zero leaves the state of the item loop unchanged, so
  it adds nothing to any \<open>itemsTotal\<close> nor to \<open>totalAssignedAmount\<close>, and the output is the
  output of the receipt without that item; a receipt with only such items, or with no
  line items, yields the empty list.
\<close>

theorem C3_zero_share_item_excluded:
  "(totalShares item = 0 \<longrightarrow>
      processItem st item = st \<and>
      totalAssignedAmount (processItems (receipt\<lparr>line_items := xs @ item # ys\<rparr>))
        = totalAssignedAmount (processItems (receipt\<lparr>line_items := xs @ ys\<rparr>)) \<and>
      calculatePerPersonBreakdown (receipt\<lparr>line_items := xs @ item # ys\<rparr>)
        = calculatePerPersonBreakdown (receipt\<lparr>line_items := xs @ ys\<rparr>))
   \<and> ((\<forall>item \<in> set (line_items receipt). totalShares item = 0) \<longrightarrow>
        calculatePerPersonBreakdown receipt = [])
   \<and> (line_items receipt = [] \<longrightarrow> calculatePerPersonBreakdown receipt = [])"
proof (intro conjI impI)
  assume z: "totalShares item = 0"
  then have le: "totalShares item \<le> 0" by simp
  show "processItem st item = st" by (rule processItem_skip[OF le])
  show "totalAssignedAmount (processItems (receipt\<lparr>line_items := xs @ item # ys\<rparr>))
        = totalAssignedAmount (processItems (receipt\<lparr>line_items := xs @ ys\<rparr>))"
    by (simp only: processItems_skip[OF le])
  show "calculatePerPersonBreakdown (receipt\<lparr>line_items := xs @ item # ys\<rparr>)
        = calculatePerPersonBreakdown (receipt\<lparr>line_items := xs @ ys\<rparr>)"
    by (rule calculate_cong) (simp_all add: processItems_skip[OF le])
next
  assume "\<forall>item \<in> set (line_items receipt). totalShares item = 0"
  then have "\<forall>item \<in> set (line_items receipt). totalShares item \<le> 0" by simp
  then show "calculatePerPersonBreakdown receipt = []" by (rule calculate_all_skipped)
next
  assume "line_items receipt = []"
  then show "calculatePerPersonBreakdown receipt = []"
    by (simp add: calculate_all_skipped)
qed

theorem C3_zero_share_item_excluded_witness:
  "totalShares item_zero_shares = 0 \<and>
   calculatePerPersonBreakdown
     (receipt_unassigned_mix\<lparr>line_items := line_items receipt_unassigned_mix @ item_zero_shares # []\<rparr>)
   = [\<lparr>participantId = ''p1'', participantName = ''Alice'', itemsTotal = 1000,
        taxShare = 600, tipShare = 0, total = 1600\<rparr>] \<and>
   map totalShares (line_items (receipt_unassigned_mix\<lparr>line_items := [item_zero_shares]\<rparr>))
     = [0] \<and>
   calculatePerPersonBreakdown (receipt_unassigned_mix\<lparr>line_items := [item_zero_shares]\<rparr>) = []"
  using C3_zero_share_item_excluded[where item = item_zero_shares and st = initial_state
      and receipt = receipt_unassigned_mix and xs = "line_items receipt_unassigned_mix"
      and ys = "[]"]
    C3_zero_share_item_excluded[where item = item_zero_shares and st = initial_state
      and receipt = "receipt_unassigned_mix\<lparr>line_items := [item_zero_shares]\<rparr>"
      and xs = "[]" and ys = "[]"]
  by (simp add: receipt_unassigned_mix_def item_zero_shares_def calc_eval_defs)

subsection \<open>C4: assignments with zero shares\<close>

text \<open>
  C4, as stated, fails: the inner loop creates an entry for every assignment of an item with
  positive total shares, whatever the shares of the assignment. Alice, whose only assignment
  has zero shares on an item where Bob has one share, is in the output with all amounts 0.
\<close>

theorem C4_counterexample:
  "\<lparr>participantId = ''p1'', participantName = ''Alice'', itemsTotal = 0,
     taxShare = 0, tipShare = 0, total = 0\<rparr>
   \<in> set (calculatePerPersonBreakdown receipt_zero_share)"
  by (simp add: receipt_zero_share_def calc_eval_defs)

text \<open>
  C4, amended: an assignment with zero shares adds nothing to \<open>totalShares\<close>; the
  participants of the output are exactly those with an assignment, of any shares, on a line
  item with positive total shares; and a participant of the output all of whose assignments
  on the receipt carry zero shares has \<open>itemsTotal\<close>, \<open>taxShare\<close>, \<open>tipShare\<close> and \<open>total\<close> 0.
\<close>

theorem C4_zero_share_participant:
  "totalShares (item\<lparr>assignments := filter (\<lambda>a. shares a \<noteq> 0) (assignments item)\<rparr>)
     = totalShares item
   \<and> participantId ` set (calculatePerPersonBreakdown receipt)
       = {participant_id a | item a.
            item \<in> set (line_items receipt) \<and> 0 < totalShares item \<and> a \<in> set (assignments item)}
   \<and> (\<forall>e \<in> set (calculatePerPersonBreakdown receipt).
        (\<forall>item\<in>set (line_items receipt). \<forall>a\<in>set (assignments item).
            participant_id a = participantId e \<longrightarrow> shares a = 0) \<longrightarrow>
        itemsTotal e = 0 \<and> taxShare e = 0 \<and> tipShare e = 0 \<and> total e = 0)"
proof (intro conjI ballI impI)
  show "totalShares (item\<lparr>assignments := filter (\<lambda>a. shares a \<noteq> 0) (assignments item)\<rparr>)
     = totalShares item"
    by (rule totalShares_filter_nonzero)
next
  show "participantId ` set (calculatePerPersonBreakdown receipt)
       = {participant_id a | item a.
            item \<in> set (line_items receipt) \<and> 0 < totalShares item \<and> a \<in> set (assignments item)}"
    by (simp only: set_output_ids set_creditIds_receiptCredits)
next
  fix e
  assume "e \<in> set (calculatePerPersonBreakdown receipt)"
    and z: "\<forall>item\<in>set (line_items receipt). \<forall>a\<in>set (assignments item).
            participant_id a = participantId e \<longrightarrow> shares a = 0"
  then have mem: "e \<in> set (breakdownValues receipt)" by (simp add: set_calculate)
  show it: "itemsTotal e = 0"
    using output_entry(2)[OF mem] creditedTo_zero_shares[OF z] by simp
  show tax: "taxShare e = 0" using output_entry(3)[OF mem] it by simp
  show tip: "tipShare e = 0" using output_entry(4)[OF mem] it by simp
  show "total e = 0" using output_entry(5)[OF mem] it tax tip by simp
qed

theorem C4_zero_share_participant_witness:
  "participantId ` set (calculatePerPersonBreakdown receipt_zero_share) = {''p1'', ''p2''} \<and>
   map shares (filter (\<lambda>a. participant_id a = ''p1'')
                 (concat (map assignments (line_items receipt_zero_share)))) = [0] \<and>
   filter (\<lambda>e. participantId e = ''p1'') (calculatePerPersonBreakdown receipt_zero_share)
     = [\<lparr>participantId = ''p1'', participantName = ''Alice'', itemsTotal = 0,
          taxShare = 0, tipShare = 0, total = 0\<rparr>]"
  using C4_zero_share_participant[where receipt = receipt_zero_share]
  by (simp add: receipt_zero_share_def calc_eval_defs insert_commute)

subsection \<open>C5: the items totals add up\<close>



subsection \<open>C6: scaling the shares of an item\<close>



subsection \<open>C7: negative shares\<close>

text \<open>
  C7, as stated, fails: the function has no validation and no error path. With Alice on three
  shares and Bob on minus one of a 1000-cent item, it returns a breakdown in which Bob is
  credited \<open>- 500\<close> cents of items and negative tax and tip.
\<close>

theorem C7_counterexample:
  "calculatePerPersonBreakdown receipt_negative_share
   = [\<lparr>participantId = ''p1'', participantName = ''Alice'', itemsTotal = 1500,
        taxShare = 150, tipShare = 75, total = 1725\<rparr>,
      \<lparr>participantId = ''p2'', participantName = ''Bob'', itemsTotal = - 500,
        taxShare = - 50, tipShare = - 25, total = - 575\<rparr>]"
  by (simp add: receipt_negative_share_def item_negative_share_def assignment_negative_def
      calc_eval_defs)

text \<open>
  C7, amended: a receipt with an assignment of negative shares is not rejected; the negative
  shares are used as they are. If the total shares of its line item are still positive, the
  quotient \<open>itemTotal \<times> shares / totalShares\<close> of that assignment is one of the amounts
  credited, and the participant is in the output with the sum of the amounts credited to
  them; if the total shares are zero or less, the line item is skipped.
\<close>

theorem C7_negative_shares_incorporated:
  assumes "item \<in> set (line_items receipt)" and "a \<in> set (assignments item)"
    and "shares a < 0"
  shows "(0 < totalShares item \<longrightarrow>
            (a, (itemTotal item * shares a) / totalShares item)
              \<in> set (receiptCredits (line_items receipt)) \<and>
            (\<exists>e \<in> set (calculatePerPersonBreakdown receipt).
               participantId e = participant_id a \<and>
               itemsTotal e = creditedTo (participant_id a) (receiptCredits (line_items receipt))))
         \<and> (totalShares item \<le> 0 \<longrightarrow> processItem st item = st)"
proof (intro conjI impI)
  assume pos: "0 < totalShares item"
  show cr: "(a, (itemTotal item * shares a) / totalShares item)
              \<in> set (receiptCredits (line_items receipt))"
    using assms(1,2) pos by (force simp: receiptCredits_def itemCredits_def)
  then have "participant_id a \<in> set (creditIds (receiptCredits (line_items receipt)))"
    by (force simp: creditIds_def)
  then have "participant_id a \<in> participantId ` set (calculatePerPersonBreakdown receipt)"
    by (simp only: set_output_ids)
  then obtain e where e: "e \<in> set (calculatePerPersonBreakdown receipt)"
    "participantId e = participant_id a" by auto
  then have "e \<in> set (breakdownValues receipt)" by (simp add: set_calculate)
  from output_entry(2)[OF this] e
  show "\<exists>e \<in> set (calculatePerPersonBreakdown receipt).
               participantId e = participant_id a \<and>
               itemsTotal e = creditedTo (participant_id a) (receiptCredits (line_items receipt))"
    by auto
next
  assume "totalShares item \<le> 0"
  then show "processItem st item = st" by (rule processItem_skip)
qed

theorem C7_negative_shares_incorporated_witness:
  "item_negative_share \<in> set (line_items receipt_negative_share) \<and>
   assignment_negative \<in> set (assignments item_negative_share) \<and>
   shares assignment_negative < 0 \<and>
   0 < totalShares item_negative_share \<and>
   (assignment_negative, - 500) \<in> set (receiptCredits (line_items receipt_negative_share)) \<and>
   creditedTo ''p2'' (receiptCredits (line_items receipt_negative_share)) = - 500"
proof -
  have h1: "item_negative_share \<in> set (line_items receipt_negative_share)"
    by (simp add: receipt_negative_share_def)
  have h2: "assignment_negative \<in> set (assignments item_negative_share)"
    by (simp add: item_negative_share_def)
  have h3: "shares assignment_negative < 0"
    by (simp add: assignment_negative_def)
  have pos: "0 < totalShares item_negative_share"
    by (simp add: item_negative_share_def assignment_negative_def totalShares_def)
  have q: "(itemTotal item_negative_share * shares assignment_negative)
             / totalShares item_negative_share = - 500"
    by (simp add: item_negative_share_def assignment_negative_def totalShares_def itemTotal_def)
  have c: "creditedTo ''p2'' (receiptCredits (line_items receipt_negative_share)) = - 500"
    by (simp add: receipt_negative_share_def item_negative_share_def assignment_negative_def
        creditedTo_def receiptCredits_def itemCredits_def totalShares_def itemTotal_def)
  from C7_negative_shares_incorporated[OF h1 h2 h3, of initial_state] pos q
  have "(assignment_negative, - 500) \<in> set (receiptCredits (line_items receipt_negative_share))"
    by simp
  with h1 h2 h3 pos c show ?thesis by simp
qed

subsection \<open>C8: order of the output\<close>

text \<open>
  C8: the output is sorted by \<open>total\<close>, largest first; entries with equal totals keep the
  order they have in the \<open>breakdown\<close> map (the output is a permutation of its values); and
  the order of that map is the order in which the participant ids are first met by the two
  nested loops over the line items with positive total shares and their assignments.
\<close>

theorem C8_sorted_desc_stable:
  "sorted_wrt (\<lambda>a b. total a \<ge> total b) (calculatePerPersonBreakdown receipt)
   \<and> (\<forall>t. filter (\<lambda>e. total e = t) (calculatePerPersonBreakdown receipt)
           = filter (\<lambda>e. total e = t) (breakdownValues receipt))
   \<and> mset (calculatePerPersonBreakdown receipt) = mset (breakdownValues receipt)
   \<and> map participantId (breakdownValues receipt)
       = firstOcc (creditIds (receiptCredits (line_items receipt)))"
proof (intro conjI allI)
  have "sorted (map (\<lambda>e. - total e) (calculatePerPersonBreakdown receipt))"
    by (simp add: calculatePerPersonBreakdown_def sortByTotalDesc_def)
  then show "sorted_wrt (\<lambda>a b. total a \<ge> total b) (calculatePerPersonBreakdown receipt)"
    by (simp add: sorted_map)
next
  fix t
  have "filter (\<lambda>e. - total e = - t) (sort_key (\<lambda>e. - total e) (breakdownValues receipt))
          = filter (\<lambda>e. - total e = - t) (breakdownValues receipt)"
    by (rule sort_key_stable)
  then show "filter (\<lambda>e. total e = t) (calculatePerPersonBreakdown receipt)
           = filter (\<lambda>e. total e = t) (breakdownValues receipt)"
    by (simp add: calculatePerPersonBreakdown_def sortByTotalDesc_def)
next
  show "mset (calculatePerPersonBreakdown receipt) = mset (breakdownValues receipt)"
    by (simp add: calculatePerPersonBreakdown_def sortByTotalDesc_def)
next
  show "map participantId (breakdownValues receipt)
       = firstOcc (creditIds (receiptCredits (line_items receipt)))"
    by (rule output_ids)
qed

theorem C8_sorted_desc_stable_witness:
  "map (\<lambda>e. (participantName e, total e)) (calculatePerPersonBreakdown receipt_tie)
     = [(''Bob'', 3000), (''Carol'', 1000), (''Alice'', 1000)] \<and>
   map participantName (breakdownValues receipt_tie) = [''Carol'', ''Bob'', ''Alice''] \<and>
   firstOcc (creditIds (receiptCredits (line_items receipt_tie))) = [''p3'', ''p2'', ''p1'']"
  using C8_sorted_desc_stable[of receipt_tie]
  by (simp add: receipt_tie_def calc_eval_defs firstOcc_def creditIds_def receiptCredits_def
      itemCredits_def)

subsection \<open>C9: determinism\<close>

text \<open>
  C9: two invocations on receipts with identical values of \<open>line_items\<close>, \<open>tax_lines\<close> and
  \<open>tip_cents\<close> return identical lists: the same entries with the same field values in the
  same order. Nothing else is read: whatever further properties the two arguments carry,
  and there is no state kept between invocations, the three locals being created at each
  call.
\<close>

theorem C9_deterministic:
  assumes "line_items receipt1 = line_items receipt2"
    and "tax_lines receipt1 = tax_lines receipt2"
    and "tip_cents receipt1 = tip_cents receipt2"
  shows "calculatePerPersonBreakdown receipt1 = calculatePerPersonBreakdown receipt2"
proof (rule calculate_cong)
  show "processItems receipt1 = processItems receipt2"
    using assms(1) by (simp add: processItems_def)
qed (rule assms(2), rule assms(3))

theorem C9_deterministic_witness:
  "line_items receipt_scenario_A = line_items (receipt_scenario_A\<lparr>tip_cents := None\<rparr>) \<and>
   tax_lines receipt_scenario_A = tax_lines (receipt_scenario_A\<lparr>tip_cents := None\<rparr>) \<and>
   tip_cents receipt_scenario_A = tip_cents (receipt_scenario_A\<lparr>tip_cents := None\<rparr>) \<and>
   calculatePerPersonBreakdown receipt_scenario_A
     = calculatePerPersonBreakdown (receipt_scenario_A\<lparr>tip_cents := None\<rparr>) \<and>
   map (\<lambda>e. (participantName e, total e))
       (calculatePerPersonBreakdown (receipt_scenario_A\<lparr>tip_cents := None\<rparr>))
     = [(''Alice'', 2000), (''Bob'', 1000)]"
proof -
  have h1: "line_items receipt_scenario_A = line_items (receipt_scenario_A\<lparr>tip_cents := None\<rparr>)"
    by simp
  have h2: "tax_lines receipt_scenario_A = tax_lines (receipt_scenario_A\<lparr>tip_cents := None\<rparr>)"
    by simp
  have h3: "tip_cents receipt_scenario_A = tip_cents (receipt_scenario_A\<lparr>tip_cents := None\<rparr>)"
    by (simp add: receipt_scenario_A_def)
  from C9_deterministic[OF h1 h2 h3] h3 show ?thesis
    by (simp add: receipt_scenario_A_def calc_eval_defs)
qed

subsection \<open>C10: the guard of the proration\<close>



end
